theory Spec2Isabelle
  imports Main
begin

section \<open>The NeoChat service worker (service-worker.js)\<close>

text \<open>
  The worker is a set of event handlers that run against the browser: its cache storage,
  the network, the notification surface and the open pages. The browser side is modelled
  as the handlers meet it:
  \<^item> the cache storage is an ordered list of named buckets (creation order, which is the
    order \<open>caches.keys()\<close> enumerates and \<open>caches.match\<close> searches), each bucket an
    ordered list of request/response pairs;
  \<^item> a stored pair answers a request when the Cache interface says it matches: method
    GET, the same URL apart from the fragment, and equal values for the request headers
    the stored response names in \<open>Vary\<close>;
  \<^item> \<open>cache.put\<close> and \<open>cache.addAll\<close> refuse what the Cache interface refuses, with a
    \<open>TypeError\<close>;
  \<^item> the network is a function from requests to settled promises, given to the handler;
  \<^item> every call a handler makes on the host is appended to a trace, in the order the
    calls are made.
\<close>

subsection \<open>Data\<close>

text \<open>A URL record: the scheme, what follows the colon up to the fragment, the fragment.\<close>

record web_url =
  url_scheme :: string
  url_rest :: string
  url_fragment :: "string option"

record request =
  request_method :: string
  request_url :: web_url
  request_headers :: "(string \<times> string) list"

record response =
  status :: nat
  statusText :: string
  headers :: "(string \<times> string) list"
  body :: string

type_synonym cache = "(request \<times> response) list"

text \<open>
  Values that reach the worker through \<open>postMessage\<close> (structured clones). Numbers are
  the integers here; the other numbers are primitives like them, without properties.
\<close>

datatype js_value =
    JUndefined
  | JNull
  | JBool bool
  | JNum int
  | JStr string
  | JObj "(string \<times> js_value) list"

record notification_options =
  opt_body :: string
  icon :: string
  badge :: string
  tag :: string
  requireInteraction :: bool

text \<open>
  A page handle as \<open>clients.matchAll\<close> returns it: the URL of the page, and whether
  \<open>'focus' in client\<close> holds.
\<close>

record client =
  page :: web_url
  has_focus :: bool

text \<open>The origin the worker is served from; a service worker has an http or https origin.\<close>

datatype web_scheme = Http | Https

record origin =
  origin_scheme :: web_scheme
  origin_host :: string

datatype error = TypeError

type_synonym 'a promise = "error + 'a"

datatype logarg = NoArg | ArgName string | ArgData js_value | ArgEvent string

datatype hostcall =
    ConsoleLog string logarg
  | CachesOpen string
  | CacheAddAll string "string list"
  | NetFetch request
  | CachePut string request response
  | CachesKeys
  | CachesDelete string
  | CachesMatch request
  | SkipWaiting
  | ClientsClaim
  | ShowNotification string notification_options
  | NotificationClose
  | ClientsMatchAll
  | ClientFocus nat
  | OpenWindow string

text \<open>
  Work a handler leaves behind without handing its promise to \<open>event.waitUntil\<close> or
  \<open>event.respondWith\<close>: the callback \<open>(cache) => { cache.put(request, responseClone); }\<close>
  of the fetch handler, with the cache it was given.
\<close>

datatype task = CachePutTask string request response

record sw_state =
  caches :: "(string \<times> cache) list"
  pending :: "task list"
  trace :: "hostcall list"

type_synonym 'a async = "sw_state \<Rightarrow> 'a promise \<times> sw_state"

subsection \<open>Constants of the script\<close>

definition CACHE_NAME :: string where
  "CACHE_NAME = ''neochat-v10-cache''"

definition FILES_TO_CACHE :: "string list" where
  "FILES_TO_CACHE = [''/'', ''/index.html'', ''/service-worker.js'']"

text \<open>The default notification body, a Cyrillic literal, as the UTF-8 bytes of the script.\<close>

definition DEFAULT_BODY :: string where
  "DEFAULT_BODY =
     [CHR 0xD0, CHR 0x9D, CHR 0xD0, CHR 0xBE, CHR 0xD0, CHR 0xB2, CHR 0xD0, CHR 0xBE,
      CHR 0xD0, CHR 0xB5, CHR 0x20, CHR 0xD1, CHR 0x81, CHR 0xD0, CHR 0xBE, CHR 0xD0,
      CHR 0xBE, CHR 0xD0, CHR 0xB1, CHR 0xD1, CHR 0x89, CHR 0xD0, CHR 0xB5, CHR 0xD0,
      CHR 0xBD, CHR 0xD0, CHR 0xB8, CHR 0xD0, CHR 0xB5, CHR 0x20, CHR 0xD0, CHR 0xB2,
      CHR 0x20, CHR 0x4E, CHR 0x65, CHR 0x6F, CHR 0x43, CHR 0x68, CHR 0x61, CHR 0x74]"

subsection \<open>Promises\<close>

definition resolve :: "'a \<Rightarrow> 'a async" where
  "resolve v = (\<lambda>s. (Inr v, s))"

text \<open>A promise obtained earlier, whose call the host has already seen.\<close>

definition settled :: "'a promise \<Rightarrow> 'a async" where
  "settled p = (\<lambda>s. (p, s))"

definition then_p :: "'a async \<Rightarrow> ('a \<Rightarrow> 'b async) \<Rightarrow> 'b async" where
  "then_p p f = (\<lambda>s. case p s of (Inl e, s1) \<Rightarrow> (Inl e, s1) | (Inr v, s1) \<Rightarrow> f v s1)"

definition catch_p :: "'a async \<Rightarrow> (error \<Rightarrow> 'a async) \<Rightarrow> 'a async" where
  "catch_p p h = (\<lambda>s. case p s of (Inl e, s1) \<Rightarrow> h e s1 | (Inr v, s1) \<Rightarrow> (Inr v, s1))"

text \<open>
  \<open>Promise.all\<close>: every promise of the array was started when the array was built, so
  every one runs; the result is rejected when one of them is.
\<close>

fun promise_all :: "'a async list \<Rightarrow> 'a list async" where
  "promise_all [] s = (Inr [], s)"
| "promise_all (p # ps) s =
     (case p s of (r, s1) \<Rightarrow>
        (case promise_all ps s1 of (rs, s2) \<Rightarrow>
           ((case r of Inl e \<Rightarrow> Inl e
             | Inr v \<Rightarrow> (case rs of Inl e \<Rightarrow> Inl e | Inr vs \<Rightarrow> Inr (v # vs))), s2)))"

subsection \<open>URLs and headers\<close>

text \<open>The serialization of a URL, which \<open>client.url\<close> returns.\<close>

definition href :: "web_url \<Rightarrow> string" where
  "href u =
     url_scheme u @ '':'' @ url_rest u @
     (case url_fragment u of None \<Rightarrow> [] | Some f \<Rightarrow> CHR ''#'' # f)"

definition http_scheme :: "web_url \<Rightarrow> bool" where
  "http_scheme u = (url_scheme u = ''http'' \<or> url_scheme u = ''https'')"

text \<open>Equality of URLs with the fragments left out.\<close>

definition same_resource :: "web_url \<Rightarrow> web_url \<Rightarrow> bool" where
  "same_resource u v = (url_scheme u = url_scheme v \<and> url_rest u = url_rest v)"

fun scheme_name :: "web_scheme \<Rightarrow> string" where
  "scheme_name Http = ''http''"
| "scheme_name Https = ''https''"

text \<open>A path that starts with a slash, resolved against the worker's origin.\<close>

definition absolute :: "origin \<Rightarrow> string \<Rightarrow> web_url" where
  "absolute org p =
     \<lparr>url_scheme = scheme_name (origin_scheme org),
      url_rest = ''//'' @ origin_host org @ p,
      url_fragment = None\<rparr>"

text \<open>Header names are compared without regard to case.\<close>

definition lower_char :: "char \<Rightarrow> char" where
  "lower_char c =
     (case map_of (zip ''ABCDEFGHIJKLMNOPQRSTUVWXYZ'' ''abcdefghijklmnopqrstuvwxyz'') c of
        Some d \<Rightarrow> d
      | None \<Rightarrow> c)"

definition lower :: "string \<Rightarrow> string" where
  "lower s = map lower_char s"

definition header_values :: "string \<Rightarrow> (string \<times> string) list \<Rightarrow> string list" where
  "header_values name hs = map snd (filter (\<lambda>(n, v). lower n = lower name) hs)"

text \<open>The combined value of a header: its values, joined by a comma and a space.\<close>

definition combined :: "string \<Rightarrow> (string \<times> string) list \<Rightarrow> string option" where
  "combined name hs =
     (case header_values name hs of
        [] \<Rightarrow> None
      | v # vs \<Rightarrow> Some (foldl (\<lambda>a b. a @ '', '' @ b) v vs))"

fun split_commas :: "string \<Rightarrow> string list" where
  "split_commas [] = [[]]"
| "split_commas (c # cs) =
     (if c = CHR '','' then [] # split_commas cs
      else (case split_commas cs of [] \<Rightarrow> [[c]] | x # xs \<Rightarrow> (c # x) # xs))"

definition is_space :: "char \<Rightarrow> bool" where
  "is_space c = (c = CHR '' '' \<or> c = CHR 0x09)"

definition trim :: "string \<Rightarrow> string" where
  "trim s = rev (dropWhile is_space (rev (dropWhile is_space s)))"

text \<open>The field names a response lists in its \<open>Vary\<close> headers.\<close>

definition vary_fields :: "response \<Rightarrow> string list" where
  "vary_fields r =
     concat (map (\<lambda>v. map trim (split_commas v)) (header_values ''Vary'' (headers r)))"

definition no_vary_star :: "response \<Rightarrow> bool" where
  "no_vary_star r = list_all (\<lambda>f. f \<noteq> ''*'') (vary_fields r)"

subsection \<open>The host\<close>

definition call :: "hostcall \<Rightarrow> sw_state \<Rightarrow> sw_state" where
  "call c s = s\<lparr>trace := trace s @ [c]\<rparr>"

definition console_log :: "string \<Rightarrow> logarg \<Rightarrow> sw_state \<Rightarrow> sw_state" where
  "console_log msg arg = call (ConsoleLog msg arg)"

definition skipWaiting :: "sw_state \<Rightarrow> sw_state" where
  "skipWaiting = call SkipWaiting"

definition clients_claim :: "sw_state \<Rightarrow> sw_state" where
  "clients_claim = call ClientsClaim"

definition notification_close :: "sw_state \<Rightarrow> sw_state" where
  "notification_close = call NotificationClose"

definition host_fetch :: "(request \<Rightarrow> response promise) \<Rightarrow> request \<Rightarrow> response async" where
  "host_fetch net req = (\<lambda>s. (net req, call (NetFetch req) s))"

definition has_cache :: "string \<Rightarrow> sw_state \<Rightarrow> bool" where
  "has_cache name s = (name \<in> set (map fst (caches s)))"

text \<open>\<open>caches.open\<close> creates the bucket when it is absent; the handle is the name.\<close>

definition caches_open :: "string \<Rightarrow> string async" where
  "caches_open name = (\<lambda>s.
     (Inr name,
      call (CachesOpen name)
        (if has_cache name s then s else s\<lparr>caches := caches s @ [(name, [])]\<rparr>)))"

text \<open>
  Whether a stored pair answers a request: the request is a GET, the URLs agree apart
  from the fragment, and for every field of the stored response's \<open>Vary\<close> the field is
  not \<open>*\<close> and the two requests carry the same combined value.
\<close>

definition request_matches :: "request \<Rightarrow> request \<times> response \<Rightarrow> bool" where
  "request_matches q item =
     (request_method q = ''GET'' \<and>
      same_resource (request_url q) (request_url (fst item)) \<and>
      list_all
        (\<lambda>f. f \<noteq> ''*'' \<and>
             combined f (request_headers (fst item)) = combined f (request_headers q))
        (vary_fields (snd item)))"

text \<open>\<open>cache.match\<close>: the response of the first pair that answers the request.\<close>

definition cache_lookup :: "cache \<Rightarrow> request \<Rightarrow> response option" where
  "cache_lookup c q = map_option snd (find (request_matches q) c)"

text \<open>
  What \<open>cache.put\<close> accepts: an http or https URL, the method GET, a status other than
  206, and no \<open>*\<close> in \<open>Vary\<close>.
\<close>

definition storable :: "request \<Rightarrow> response \<Rightarrow> bool" where
  "storable req resp =
     (http_scheme (request_url req) \<and> request_method req = ''GET'' \<and>
      status resp \<noteq> 206 \<and> no_vary_star resp)"

text \<open>A put removes the pairs that answer the request and appends the new pair.\<close>

definition put_entry :: "request \<Rightarrow> response \<Rightarrow> cache \<Rightarrow> cache" where
  "put_entry req resp c = filter (\<lambda>item. \<not> request_matches req item) c @ [(req, resp)]"

definition update_cache :: "string \<Rightarrow> (cache \<Rightarrow> cache) \<Rightarrow> sw_state \<Rightarrow> sw_state" where
  "update_cache name f s =
     s\<lparr>caches := map (\<lambda>(n, c). if n = name then (n, f c) else (n, c)) (caches s)\<rparr>"

definition cache_put :: "string \<Rightarrow> request \<Rightarrow> response \<Rightarrow> unit async" where
  "cache_put name req resp = (\<lambda>s.
     if storable req resp
     then (Inr (), call (CachePut name req resp) (update_cache name (put_entry req resp) s))
     else (Inl TypeError, call (CachePut name req resp) s))"

definition caches_keys :: "string list async" where
  "caches_keys = (\<lambda>s. (Inr (map fst (caches s)), call CachesKeys s))"

definition caches_delete :: "string \<Rightarrow> bool async" where
  "caches_delete name = (\<lambda>s.
     (Inr (has_cache name s),
      call (CachesDelete name) (s\<lparr>caches := filter (\<lambda>(n, c). n \<noteq> name) (caches s)\<rparr>)))"

text \<open>\<open>caches.match\<close> searches every bucket, in creation order, and gives the first hit.\<close>

fun match_all :: "(string \<times> cache) list \<Rightarrow> request \<Rightarrow> response option" where
  "match_all [] req = None"
| "match_all ((n, c) # cs) req =
     (case cache_lookup c req of Some r \<Rightarrow> Some r | None \<Rightarrow> match_all cs req)"

definition caches_match :: "request \<Rightarrow> response option async" where
  "caches_match req = (\<lambda>s. (Inr (match_all (caches s) req), call (CachesMatch req) s))"

text \<open>A lookup in one bucket, \<open>caches.open(name).then(c => c.match(req))\<close>, for the statements.\<close>

definition cache_match :: "string \<Rightarrow> request \<Rightarrow> sw_state \<Rightarrow> response option" where
  "cache_match name req s =
     (case map_of (caches s) name of None \<Rightarrow> None | Some c \<Rightarrow> cache_lookup c req)"

definition ok :: "response \<Rightarrow> bool" where
  "ok r = (200 \<le> status r \<and> status r \<le> 299)"

text \<open>
  What \<open>cache.addAll\<close> accepts of a fetched response: an ok status other than 206, and
  no \<open>*\<close> in \<open>Vary\<close>.
\<close>

definition addable :: "response \<Rightarrow> bool" where
  "addable r = (ok r \<and> status r \<noteq> 206 \<and> no_vary_star r)"

definition seed_request :: "origin \<Rightarrow> string \<Rightarrow> request" where
  "seed_request org p =
     \<lparr>request_method = ''GET'', request_url = absolute org p, request_headers = []\<rparr>"

fun fetched :: "response promise list \<Rightarrow> response list option" where
  "fetched [] = Some []"
| "fetched (Inl e # rs) = None"
| "fetched (Inr r # rs) =
     (if addable r then (case fetched rs of None \<Rightarrow> None | Some xs \<Rightarrow> Some (r # xs))
      else None)"

text \<open>
  \<open>cache.addAll\<close> fetches every path and stores all the responses or none: one failed
  fetch, or one response it does not accept, rejects the whole call. The paths are
  resolved against the worker's origin, so their scheme is http or https.
\<close>

definition cache_addAll ::
  "origin \<Rightarrow> (request \<Rightarrow> response promise) \<Rightarrow> string \<Rightarrow> string list \<Rightarrow> unit async" where
  "cache_addAll org net name paths = (\<lambda>s.
     (let reqs = map (seed_request org) paths;
          s1 = foldl (\<lambda>t r. call (NetFetch r) t) (call (CacheAddAll name paths) s) reqs
      in case fetched (map net reqs) of
           None \<Rightarrow> (Inl TypeError, s1)
         | Some rs \<Rightarrow>
             (Inr (), foldl (\<lambda>t (q, r). update_cache name (put_entry q r) t) s1 (zip reqs rs))))"

definition showNotification :: "string \<Rightarrow> notification_options \<Rightarrow> unit async" where
  "showNotification title options = (\<lambda>s. (Inr (), call (ShowNotification title options) s))"

definition clients_matchAll :: "client list \<Rightarrow> client list async" where
  "clients_matchAll windows = (\<lambda>s. (Inr windows, call ClientsMatchAll s))"

definition client_focus :: "nat \<Rightarrow> unit async" where
  "client_focus i = (\<lambda>s. (Inr (), call (ClientFocus i) s))"

definition clients_openWindow :: "string \<Rightarrow> unit async" where
  "clients_openWindow u = (\<lambda>s. (Inr (), call (OpenWindow u) s))"

subsection \<open>Work outside the event\<close>

definition detach :: "task \<Rightarrow> sw_state \<Rightarrow> sw_state" where
  "detach t s = s\<lparr>pending := pending s @ [t]\<rparr>"

text \<open>A rejected put is a rejection nobody handles: the state is what the put left.\<close>

fun run_task :: "task \<Rightarrow> unit async" where
  "run_task (CachePutTask cache req resp) = cache_put cache req resp"

text \<open>The pending work runs to its end, oldest first.\<close>

definition settle :: "sw_state \<Rightarrow> sw_state" where
  "settle s = foldl (\<lambda>t k. snd (run_task k t)) (s\<lparr>pending := []\<rparr>) (pending s)"

text \<open>The host stops the worker: work it was not told to wait for is lost.\<close>

definition terminate :: "sw_state \<Rightarrow> sw_state" where
  "terminate s = s\<lparr>pending := []\<rparr>"

subsection \<open>The handlers\<close>

text \<open>
  \<open>event.waitUntil(p)\<close>: the event lasts until \<open>p\<close> settles, and fails when it rejects.
  A handler first runs to its end, making its own calls (\<open>caches.open\<close>,
  \<open>caches.keys\<close>, \<open>skipWaiting\<close>, \<open>clients.claim\<close>); the callbacks it gave to
  \<open>then\<close> and \<open>catch\<close> run after that, on the promises those calls returned.
\<close>

definition waitUntil :: "'a async \<Rightarrow> unit async" where
  "waitUntil p = (\<lambda>s. case p s of (Inl e, s1) \<Rightarrow> (Inl e, s1) | (Inr v, s1) \<Rightarrow> (Inr (), s1))"

definition install_handler :: "origin \<Rightarrow> (request \<Rightarrow> response promise) \<Rightarrow> unit async" where
  "install_handler org net = (\<lambda>s.
     (let s1 = console_log ''[SW] Installing Service Worker...'' NoArg s;
          (opened, s2) = caches_open CACHE_NAME s1;
          s3 = skipWaiting s2
      in waitUntil
           (then_p (settled opened) (\<lambda>cache t.
              catch_p (cache_addAll org net cache FILES_TO_CACHE)
                (\<lambda>e u. (Inr (), console_log ''[SW] Some files could not be cached'' NoArg u))
                (console_log ''[SW] Caching files...'' NoArg t)))
           s3))"

text \<open>The callback of \<open>cacheNames.map\<close> in the activate handler.\<close>

definition delete_if_stale :: "string \<Rightarrow> bool option async" where
  "delete_if_stale cacheName = (\<lambda>s.
     if cacheName \<noteq> CACHE_NAME
     then (case caches_delete cacheName
                  (console_log ''[SW] Deleting old cache:'' (ArgName cacheName) s)
           of (Inl e, s1) \<Rightarrow> (Inl e, s1) | (Inr b, s1) \<Rightarrow> (Inr (Some b), s1))
     else (Inr None, s))"

definition activate_handler :: "unit async" where
  "activate_handler = (\<lambda>s.
     (let s1 = console_log ''[SW] Service Worker activated'' NoArg s;
          (keys, s2) = caches_keys s1;
          s3 = clients_claim s2
      in waitUntil
           (then_p (settled keys) (\<lambda>cacheNames.
              promise_all (map delete_if_stale cacheNames)))
           s3))"

datatype fetch_outcome = PassThrough | RespondWith "response promise"

definition clone :: "response \<Rightarrow> response" where
  "clone r = r"

definition offline_response :: response where
  "offline_response =
     \<lparr>status = 503, statusText = ''Service Unavailable'',
      headers = [(''Content-Type'', ''text/plain'')],
      body = ''Offline - No cached response''\<rparr>"

text \<open>
  The callback of \<open>fetch(...).then\<close>. With status 200 it clones the response and calls
  \<open>caches.open\<close>; the put waits for the cache, and nothing waits for the put.
\<close>

definition cache_if_ok :: "request \<Rightarrow> response \<Rightarrow> response async" where
  "cache_if_ok req resp = (\<lambda>s.
     if status resp = 200
     then (let responseClone = clone resp
           in case caches_open CACHE_NAME s of
                (Inl e, s1) \<Rightarrow> (Inr resp, s1)
              | (Inr cache, s1) \<Rightarrow> (Inr resp, detach (CachePutTask cache req responseClone) s1))
     else (Inr resp, s))"

definition fetch_handler ::
  "(request \<Rightarrow> response promise) \<Rightarrow> request \<Rightarrow> sw_state \<Rightarrow> fetch_outcome \<times> sw_state" where
  "fetch_handler net req = (\<lambda>s.
     if request_method req \<noteq> ''GET'' then (PassThrough, s)
     else
       (case catch_p
               (then_p (host_fetch net req) (cache_if_ok req))
               (\<lambda>e. then_p (caches_match req) (\<lambda>resp.
                  resolve (case resp of Some r \<Rightarrow> r | None \<Rightarrow> offline_response)))
               s
        of (p, s1) \<Rightarrow> (RespondWith p, s1)))"

definition push_handler :: "string option \<Rightarrow> unit async" where
  "push_handler data = (\<lambda>s.
     (let s1 = console_log ''[SW] Push notification received:'' (ArgEvent ''push'') s;
          options =
            \<lparr>opt_body = (case data of Some text \<Rightarrow> text | None \<Rightarrow> DEFAULT_BODY),
             icon = ''/favicon.ico'',
             badge = ''/favicon.ico'',
             tag = ''neochat-notification'',
             requireInteraction = False\<rparr>
      in waitUntil (showNotification ''NeoChat'' options) s1))"

text \<open>\<open>client.url\<close>, the serialized URL of the page.\<close>

definition url :: "client \<Rightarrow> string" where
  "url c = href (page c)"

text \<open>The \<open>for\<close> loop of the click handler: the index of the first page it would focus.\<close>

fun first_root :: "client list \<Rightarrow> nat \<Rightarrow> nat option" where
  "first_root [] i = None"
| "first_root (c # cs) i =
     (if url c = ''/'' \<and> has_focus c then Some i else first_root cs (Suc i))"

definition notificationclick_handler :: "bool \<Rightarrow> client list \<Rightarrow> unit async" where
  "notificationclick_handler openWindow windows = (\<lambda>s.
     (let s1 = console_log ''[SW] Notification clicked:'' (ArgEvent ''notificationclick'') s;
          s2 = notification_close s1
      in waitUntil
           (then_p (clients_matchAll windows) (\<lambda>clientList.
              case first_root clientList 0 of
                Some i \<Rightarrow> client_focus i
              | None \<Rightarrow> if openWindow then clients_openWindow ''/'' else resolve ()))
           s2))"

text \<open>
  JavaScript's truthiness and property read, on message payloads. Reading a property of
  \<open>null\<close> or \<open>undefined\<close> throws; a primitive has no \<open>type\<close> property.
\<close>

fun truthy :: "js_value \<Rightarrow> bool" where
  "truthy JUndefined = False"
| "truthy JNull = False"
| "truthy (JBool b) = b"
| "truthy (JNum n) = (n \<noteq> 0)"
| "truthy (JStr s) = (s \<noteq> [])"
| "truthy (JObj fs) = True"

fun get_prop :: "js_value \<Rightarrow> string \<Rightarrow> error + js_value" where
  "get_prop JUndefined k = Inl TypeError"
| "get_prop JNull k = Inl TypeError"
| "get_prop (JObj fs) k = Inr (case map_of fs k of Some v \<Rightarrow> v | None \<Rightarrow> JUndefined)"
| "get_prop v k = Inr JUndefined"

text \<open>The message handler runs no promise: it returns the state, or throws.\<close>

definition message_handler :: "js_value \<Rightarrow> sw_state \<Rightarrow> error + sw_state" where
  "message_handler data = (\<lambda>s.
     (let s1 = console_log ''[SW] Message received:'' (ArgData data) s
      in if truthy data
         then (case get_prop data ''type'' of
                 Inl e \<Rightarrow> Inl e
               | Inr v \<Rightarrow> if v = JStr ''SKIP_WAITING'' then Inr (skipWaiting s1) else Inr s1)
         else Inr s1))"

subsection \<open>Well-formed storage\<close>

text \<open>The cache storage is a map: no two buckets share a name.\<close>

definition wf_storage :: "sw_state \<Rightarrow> bool" where
  "wf_storage s = distinct (map fst (caches s))"

text \<open>The buckets created before the current one, which \<open>caches.match\<close> searches first.\<close>

definition older_buckets :: "sw_state \<Rightarrow> (string \<times> cache) list" where
  "older_buckets s = takeWhile (\<lambda>(n, c). n \<noteq> CACHE_NAME) (caches s)"

subsection \<open>Sample inputs\<close>

definition fresh_state :: sw_state where
  "fresh_state = \<lparr>caches = [], pending = [], trace = []\<rparr>"

definition neochat :: origin where
  "neochat = \<lparr>origin_scheme = Https, origin_host = ''neochat.example''\<rparr>"

definition get_page :: request where
  "get_page =
     \<lparr>request_method = ''GET'', request_url = absolute neochat ''/index.html'',
      request_headers = []\<rparr>"

text \<open>The same page, asked for with a fragment.\<close>

definition get_page_top :: request where
  "get_page_top =
     \<lparr>request_method = ''GET'',
      request_url = (absolute neochat ''/index.html'')\<lparr>url_fragment := Some ''top''\<rparr>,
      request_headers = []\<rparr>"

definition post_message :: request where
  "post_message =
     \<lparr>request_method = ''POST'', request_url = absolute neochat ''/api/send'',
      request_headers = []\<rparr>"

definition page_v10 :: response where
  "page_v10 = \<lparr>status = 200, statusText = ''OK'', headers = [], body = ''<html>v10</html>''\<rparr>"

definition page_v9 :: response where
  "page_v9 = \<lparr>status = 200, statusText = ''OK'', headers = [], body = ''<html>v9</html>''\<rparr>"

definition not_found :: response where
  "not_found = \<lparr>status = 404, statusText = ''Not Found'', headers = [], body = []\<rparr>"

text \<open>A successful answer that no cache may store.\<close>

definition page_vary_star :: response where
  "page_vary_star =
     \<lparr>status = 200, statusText = ''OK'', headers = [(''Vary'', ''*'')],
      body = ''<html>v10</html>''\<rparr>"

definition online :: "response \<Rightarrow> request \<Rightarrow> response promise" where
  "online r = (\<lambda>req. Inr r)"

definition offline :: "request \<Rightarrow> response promise" where
  "offline = (\<lambda>req. Inl TypeError)"

text \<open>The storage when version 10 has installed beside version 9.\<close>

definition two_versions :: sw_state where
  "two_versions =
     \<lparr>caches = [(''neochat-v9-cache'', [(get_page, page_v9)]),
                (''neochat-v10-cache'', [(get_page, page_v10)])],
      pending = [], trace = []\<rparr>"

text \<open>
  The storage after version 11 has activated and deleted the bucket of version 10, while
  a worker of version 10 still has a request in flight.
\<close>

definition page_v11 :: response where
  "page_v11 = \<lparr>status = 200, statusText = ''OK'', headers = [], body = ''<html>v11</html>''\<rparr>"

definition rolled_over :: sw_state where
  "rolled_over =
     \<lparr>caches = [(''neochat-v11-cache'', [(get_page, page_v11)])], pending = [], trace = []\<rparr>"

text \<open>The root page of the application, open in a window.\<close>

definition root_page :: client where
  "root_page = \<lparr>page = absolute neochat ''/'', has_focus = True\<rparr>"

section \<open>Properties\<close>

subsection \<open>What the host calls leave alone\<close>

lemma call_simps [simp]:
  "trace (call c s) = trace s @ [c]"
  "caches (call c s) = caches s"
  "pending (call c s) = pending s"
  by (simp_all add: call_def)

lemma update_cache_simps [simp]:
  "trace (update_cache name f s) = trace s"
  "pending (update_cache name f s) = pending s"
  "map fst (caches (update_cache name f s)) = map fst (caches s)"
  by (simp_all add: update_cache_def comp_def case_prod_unfold)

lemma has_cache_call [simp]: "has_cache name (call c s) = has_cache name s"
  by (simp add: has_cache_def)

lemma has_cache_update_cache [simp]:
  "has_cache name (update_cache n f s) = has_cache name s"
  by (simp add: has_cache_def)

lemma caches_open_simps [simp]:
  "fst (caches_open name s) = Inr name"
  "trace (snd (caches_open name s)) = trace s @ [CachesOpen name]"
  "pending (snd (caches_open name s)) = pending s"
  "caches (snd (caches_open name s)) =
     (if has_cache name s then caches s else caches s @ [(name, [])])"
  by (simp_all add: caches_open_def)

lemma has_cache_caches_open: "has_cache name (snd (caches_open name s))"
  by (simp add: has_cache_def)

lemma cache_put_simps [simp]:
  "trace (snd (cache_put name req resp s)) = trace s @ [CachePut name req resp]"
  "pending (snd (cache_put name req resp s)) = pending s"
  "map fst (caches (snd (cache_put name req resp s))) = map fst (caches s)"
  by (simp_all add: cache_put_def)

lemma has_cache_map_of: "has_cache name s \<longleftrightarrow> map_of (caches s) name \<noteq> None"
  unfolding has_cache_def by (simp add: map_of_eq_None_iff)

subsection \<open>Buckets and entries\<close>

lemma find_append:
  "find P (xs @ ys) = (case find P xs of Some x \<Rightarrow> Some x | None \<Rightarrow> find P ys)"
  by (induction xs) auto

lemma find_filter_same:
  "(\<And>x. x \<in> set xs \<Longrightarrow> Q x \<Longrightarrow> P x) \<Longrightarrow> find Q (filter P xs) = find Q xs"
  by (induction xs) auto

text \<open>A pair that \<open>cache.put\<close> accepts answers its own request.\<close>

lemma request_matches_self:
  "storable req resp \<Longrightarrow> request_matches req (req, resp)"
  by (simp add: storable_def request_matches_def same_resource_def no_vary_star_def)

lemma cache_lookup_put_entry:
  "request_matches req (req, resp) \<Longrightarrow> cache_lookup (put_entry req resp c) req = Some resp"
proof -
  assume m: "request_matches req (req, resp)"
  have "find (request_matches req) (filter (\<lambda>item. \<not> request_matches req item) c) = None"
    by (simp add: find_None_iff)
  with m show ?thesis
    by (simp add: cache_lookup_def put_entry_def find_append)
qed

text \<open>A put leaves the answer to a request for another resource as it was.\<close>

lemma cache_lookup_put_entry_other:
  "\<not> same_resource (request_url q) (request_url req) \<Longrightarrow>
   cache_lookup (put_entry req resp c) q = cache_lookup c q"
proof -
  assume d: "\<not> same_resource (request_url q) (request_url req)"
  have "find (request_matches q) (filter (\<lambda>item. \<not> request_matches req item) c) =
        find (request_matches q) c"
  proof (rule find_filter_same)
    fix x assume "request_matches q x"
    with d show "\<not> request_matches req x"
      by (auto simp: request_matches_def same_resource_def)
  qed
  moreover have "\<not> request_matches q (req, resp)"
    using d by (simp add: request_matches_def)
  ultimately show ?thesis
    by (simp add: cache_lookup_def put_entry_def find_append split: option.splits)
qed

lemma map_of_update_bucket:
  "map_of (map (\<lambda>(n, c). if n = name then (n, f c) else (n, c)) cs) m =
     (if m = name then map_option f (map_of cs name) else map_of cs m)"
  by (induction cs) auto

lemma cache_match_update_cache:
  "cache_match name q (update_cache name f s) =
     (case map_of (caches s) name of None \<Rightarrow> None | Some c \<Rightarrow> cache_lookup (f c) q)"
  by (simp add: cache_match_def update_cache_def map_of_update_bucket split: option.splits)

lemma cache_match_call [simp]: "cache_match name q (call c s) = cache_match name q s"
  by (simp add: cache_match_def)

lemma cache_match_cache_put:
  "storable req resp \<Longrightarrow> has_cache name s \<Longrightarrow>
   cache_match name req (snd (cache_put name req resp s)) = Some resp"
  by (auto simp: cache_put_def cache_match_update_cache has_cache_map_of
      cache_lookup_put_entry request_matches_self)

lemma caches_cache_put_refused:
  "\<not> storable req resp \<Longrightarrow> caches (snd (cache_put name req resp s)) = caches s"
  by (simp add: cache_put_def)

subsection \<open>Pending work\<close>

lemma settle_snoc:
  "settle (s\<lparr>pending := pending s @ [t]\<rparr>) = snd (run_task t (settle s))"
  by (simp add: settle_def)

lemma settle_detach: "settle (detach t s) = snd (run_task t (settle s))"
  unfolding detach_def by (rule settle_snoc)

lemma run_task_keys: "map fst (caches (snd (run_task t s))) = map fst (caches s)"
  by (cases t) simp

lemma run_all_keys:
  "map fst (caches (foldl (\<lambda>t k. snd (run_task k t)) s ks)) = map fst (caches s)"
  by (induction ks arbitrary: s) (simp_all add: run_task_keys)

lemma settle_keys: "map fst (caches (settle s)) = map fst (caches s)"
  by (simp add: settle_def run_all_keys)

lemma has_cache_settle [simp]: "has_cache name (settle s) = has_cache name s"
  by (simp add: has_cache_def settle_keys)

subsection \<open>The request interceptor\<close>

lemma fetch_handler_resolved:
  "request_method req = ''GET'' \<Longrightarrow> net req = Inr resp \<Longrightarrow>
   fetch_handler net req s =
     (RespondWith (Inr resp),
      if status resp = 200
      then detach (CachePutTask CACHE_NAME req resp)
             (snd (caches_open CACHE_NAME (call (NetFetch req) s)))
      else call (NetFetch req) s)"
  by (simp add: fetch_handler_def catch_p_def then_p_def host_fetch_def cache_if_ok_def
      clone_def caches_open_def)

lemma fetch_handler_rejected:
  "request_method req = ''GET'' \<Longrightarrow> net req = Inl e \<Longrightarrow>
   fetch_handler net req s =
     (RespondWith
        (Inr (case match_all (caches s) req of Some r \<Rightarrow> r | None \<Rightarrow> offline_response)),
      call (CachesMatch req) (call (NetFetch req) s))"
  by (simp add: fetch_handler_def catch_p_def then_p_def host_fetch_def caches_match_def
      resolve_def)

text \<open>The state in which the put of a fetch answered with status 200 has run.\<close>

lemma settle_after_fetch:
  "request_method req = ''GET'' \<Longrightarrow> net req = Inr resp \<Longrightarrow> status resp = 200 \<Longrightarrow>
   settle (snd (fetch_handler net req s)) =
     snd (cache_put CACHE_NAME req resp
            (settle (snd (caches_open CACHE_NAME (call (NetFetch req) s)))))"
  by (simp add: fetch_handler_resolved settle_detach)

lemma put_after_fetch_stored:
  "request_method req = ''GET'' \<Longrightarrow> net req = Inr resp \<Longrightarrow> status resp = 200 \<Longrightarrow>
   storable req resp \<Longrightarrow>
   cache_match CACHE_NAME req (settle (snd (fetch_handler net req s))) = Some resp"
  by (simp add: settle_after_fetch cache_match_cache_put has_cache_caches_open)

lemma not_storable_vary_star: "\<not> storable get_page page_vary_star"
  by (simp add: storable_def page_vary_star_def no_vary_star_def vary_fields_def
      header_values_def trim_def is_space_def)

lemma refused_put_leaves_bucket_empty:
  "caches (settle (snd (fetch_handler (online page_vary_star) get_page fresh_state))) =
     [(''neochat-v10-cache'', [])]"
proof -
  have "caches (settle (snd (fetch_handler (online page_vary_star) get_page fresh_state))) =
      caches (settle (snd (caches_open CACHE_NAME (call (NetFetch get_page) fresh_state))))"
    using settle_after_fetch [of get_page "online page_vary_star" page_vary_star fresh_state]
      not_storable_vary_star
    by (simp add: caches_cache_put_refused get_page_def online_def page_vary_star_def)
  also have "\<dots> = [(''neochat-v10-cache'', [])]"
    by (simp add: settle_def fresh_state_def has_cache_def CACHE_NAME_def)
  finally show ?thesis .
qed

text \<open>
  C1, as the code does it. A GET request that the network answers: the page gets the
  network's response as it is. With status 200 the handler has also called
  \<open>caches.open\<close> for the bucket \<open>neochat-v10-cache\<close>, which exists from then on, and
  has left one put behind, of the clone under the request. Once the pending work has run,
  the bucket holds the response under the request if \<open>cache.put\<close> accepts the pair; if
  it refuses the pair, the buckets are what they would be without that put. With any other
  status the handler has made no call but the fetch: nothing is opened and nothing stored.
\<close>

theorem fetch_get_network_response:
  "request_method req = ''GET'' \<and> net req = Inr resp \<longrightarrow>
     fst (fetch_handler net req s) = RespondWith (Inr resp) \<and>
     (status resp = 200 \<longrightarrow>
        snd (fetch_handler net req s) =
          detach (CachePutTask CACHE_NAME req (clone resp))
            (snd (caches_open CACHE_NAME (call (NetFetch req) s))) \<and>
        (storable req resp \<longrightarrow>
           cache_match CACHE_NAME req (settle (snd (fetch_handler net req s))) = Some resp) \<and>
        (\<not> storable req resp \<longrightarrow>
           caches (settle (snd (fetch_handler net req s))) =
             caches (settle (snd (caches_open CACHE_NAME (call (NetFetch req) s)))))) \<and>
     (status resp \<noteq> 200 \<longrightarrow> snd (fetch_handler net req s) = call (NetFetch req) s)"
proof (intro impI, elim conjE)
  assume get: "request_method req = ''GET''" and net: "net req = Inr resp"
  let ?opened = "snd (caches_open CACHE_NAME (call (NetFetch req) s))"
  have h: "fetch_handler net req s =
     (RespondWith (Inr resp),
      if status resp = 200 then detach (CachePutTask CACHE_NAME req resp) ?opened
      else call (NetFetch req) s)"
    using get net by (rule fetch_handler_resolved)
  have stored: "cache_match CACHE_NAME req (snd (cache_put CACHE_NAME req resp (settle ?opened)))
      = Some resp" if "storable req resp"
    using that by (intro cache_match_cache_put) (simp_all add: has_cache_caches_open)
  have refused: "caches (snd (cache_put CACHE_NAME req resp (settle ?opened))) =
      caches (settle ?opened)" if "\<not> storable req resp"
    using that by (rule caches_cache_put_refused)
  show "fst (fetch_handler net req s) = RespondWith (Inr resp) \<and>
     (status resp = 200 \<longrightarrow>
        snd (fetch_handler net req s) =
          detach (CachePutTask CACHE_NAME req (clone resp)) ?opened \<and>
        (storable req resp \<longrightarrow>
           cache_match CACHE_NAME req (settle (snd (fetch_handler net req s))) = Some resp) \<and>
        (\<not> storable req resp \<longrightarrow>
           caches (settle (snd (fetch_handler net req s))) = caches (settle ?opened))) \<and>
     (status resp \<noteq> 200 \<longrightarrow> snd (fetch_handler net req s) = call (NetFetch req) s)"
    using stored refused by (simp add: h clone_def settle_detach)
qed

theorem fetch_get_network_response_witness:
  "request_method get_page = ''GET'' \<and> status page_v10 = 200 \<and> storable get_page page_v10 \<and>
   status not_found = 404 \<and>
   fst (fetch_handler (online page_v10) get_page fresh_state) = RespondWith (Inr page_v10) \<and>
   cache_match CACHE_NAME get_page
     (settle (snd (fetch_handler (online page_v10) get_page fresh_state))) = Some page_v10 \<and>
   fst (fetch_handler (online not_found) get_page fresh_state) = RespondWith (Inr not_found) \<and>
   caches (snd (fetch_handler (online not_found) get_page fresh_state)) = [] \<and>
   pending (snd (fetch_handler (online not_found) get_page fresh_state)) = []"
proof -
  have g: "request_method get_page = ''GET''"
    by (simp add: get_page_def)
  have n: "online page_v10 get_page = Inr page_v10" "online not_found get_page = Inr not_found"
    by (simp_all add: online_def)
  have st: "status page_v10 = 200" "status not_found = 404"
    by (simp_all add: page_v10_def not_found_def)
  have sto: "storable get_page page_v10"
    by (simp add: storable_def get_page_def page_v10_def http_scheme_def absolute_def
        neochat_def no_vary_star_def vary_fields_def header_values_def)
  have a: "fst (fetch_handler (online page_v10) get_page fresh_state) =
      RespondWith (Inr page_v10)"
    and b: "cache_match CACHE_NAME get_page
      (settle (snd (fetch_handler (online page_v10) get_page fresh_state))) = Some page_v10"
    using fetch_get_network_response [of get_page "online page_v10" page_v10 fresh_state]
      g n(1) st(1) sto by blast+
  have c: "fst (fetch_handler (online not_found) get_page fresh_state) =
      RespondWith (Inr not_found)"
    and d: "snd (fetch_handler (online not_found) get_page fresh_state) =
      call (NetFetch get_page) fresh_state"
    using fetch_get_network_response [of get_page "online not_found" not_found fresh_state]
      g n(2) st(2) by simp_all
  have "caches (snd (fetch_handler (online not_found) get_page fresh_state)) = []"
    "pending (snd (fetch_handler (online not_found) get_page fresh_state)) = []"
    unfolding d by (simp_all add: fresh_state_def)
  with g st sto a b c show ?thesis by (intro conjI)
qed

text \<open>
  C1 as the specification words it fails where \<open>cache.put\<close> refuses the pair: the
  network answers a GET with status 200 and \<open>Vary: *\<close>, the page gets the response, and
  after the pending put has run the bucket is empty.
\<close>

theorem fetch_get_network_response_counterexample:
  "request_method get_page = ''GET'' \<and> status page_vary_star = 200 \<and>
   fst (fetch_handler (online page_vary_star) get_page fresh_state) =
     RespondWith (Inr page_vary_star) \<and>
   caches (settle (snd (fetch_handler (online page_vary_star) get_page fresh_state))) =
     [(''neochat-v10-cache'', [])]"
proof -
  have g: "request_method get_page = ''GET''"
    by (simp add: get_page_def)
  have n: "online page_vary_star get_page = Inr page_vary_star"
    by (simp add: online_def)
  have st: "status page_vary_star = 200"
    by (simp add: page_vary_star_def)
  have "fst (fetch_handler (online page_vary_star) get_page fresh_state) =
     RespondWith (Inr page_vary_star)"
    using g n fetch_handler_resolved [of get_page "online page_vary_star" page_vary_star fresh_state]
    by simp
  with g st refused_put_leaves_bucket_empty show ?thesis by (intro conjI)
qed

text \<open>
  C2. A GET request whose network fetch is rejected: the handler asks the cache storage
  for the request and answers with the stored response when there is one, and with the
  synthesized response otherwise (status 503, status text Service Unavailable, the one
  header Content-Type: text/plain, a fixed body). Either way the promise given to
  \<open>respondWith\<close> is fulfilled with a response, never rejected.
\<close>

theorem fetch_get_network_failure:
  "request_method req = ''GET'' \<and> net req = Inl e \<longrightarrow>
     fst (fetch_handler net req s) =
       RespondWith
         (Inr (case match_all (caches s) req of Some r \<Rightarrow> r | None \<Rightarrow> offline_response)) \<and>
     snd (fetch_handler net req s) = call (CachesMatch req) (call (NetFetch req) s) \<and>
     status offline_response = 503 \<and>
     statusText offline_response = ''Service Unavailable'' \<and>
     headers offline_response = [(''Content-Type'', ''text/plain'')] \<and>
     body offline_response = ''Offline - No cached response''"
  by (simp add: fetch_handler_rejected offline_response_def)

theorem fetch_get_network_failure_witness:
  "request_method get_page_top = ''GET'' \<and> offline get_page_top = Inl TypeError \<and>
   fst (fetch_handler offline get_page_top fresh_state) = RespondWith (Inr offline_response) \<and>
   fst (fetch_handler offline get_page_top
          (fresh_state\<lparr>caches := [(CACHE_NAME, [(get_page, page_v10)])]\<rparr>)) =
     RespondWith (Inr page_v10)"
  using fetch_get_network_failure [of get_page_top offline TypeError fresh_state]
    fetch_get_network_failure [of get_page_top offline TypeError
      "fresh_state\<lparr>caches := [(CACHE_NAME, [(get_page, page_v10)])]\<rparr>"]
  by (simp add: get_page_top_def get_page_def offline_def fresh_state_def cache_lookup_def
      request_matches_def same_resource_def absolute_def page_v10_def vary_fields_def
      header_values_def)

text \<open>
  C5. A request whose method is not GET: the handler returns without calling
  \<open>respondWith\<close>, and the state after it is the state before it: the same buckets, no
  pending work, and no call on the host at all (no fetch, no lookup, no write).
\<close>

theorem fetch_non_get_untouched:
  "request_method req \<noteq> ''GET'' \<longrightarrow> fetch_handler net req s = (PassThrough, s)"
  by (simp add: fetch_handler_def)

theorem fetch_non_get_untouched_witness:
  "request_method post_message = ''POST'' \<and>
   fetch_handler (online page_v10) post_message fresh_state = (PassThrough, fresh_state)"
  using fetch_non_get_untouched [of post_message "online page_v10" fresh_state]
  by (simp add: post_message_def)

subsection \<open>Install\<close>

lemma store_all_simps [simp]:
  "trace (foldl (\<lambda>t (q, r). update_cache name (put_entry q r) t) s xs) = trace s"
  "pending (foldl (\<lambda>t (q, r). update_cache name (put_entry q r) t) s xs) = pending s"
  "map fst (caches (foldl (\<lambda>t (q, r). update_cache name (put_entry q r) t) s xs)) =
     map fst (caches s)"
  by (induction xs arbitrary: s) (simp_all add: case_prod_unfold)

lemma fetch_all_simps [simp]:
  "trace (foldl (\<lambda>t r. call (NetFetch r) t) s reqs) = trace s @ map NetFetch reqs"
  "caches (foldl (\<lambda>t r. call (NetFetch r) t) s reqs) = caches s"
  "pending (foldl (\<lambda>t r. call (NetFetch r) t) s reqs) = pending s"
  by (induction reqs arbitrary: s) simp_all

lemma cache_addAll_fst:
  "fst (cache_addAll org net name paths s) =
     (if fetched (map net (map (seed_request org) paths)) = None then Inl TypeError else Inr ())"
  by (simp add: cache_addAll_def Let_def split: option.splits)

lemma cache_addAll_simps [simp]:
  "trace (snd (cache_addAll org net name paths s)) =
     trace s @ CacheAddAll name paths # map (\<lambda>p. NetFetch (seed_request org p)) paths"
  "pending (snd (cache_addAll org net name paths s)) = pending s"
  "map fst (caches (snd (cache_addAll org net name paths s))) = map fst (caches s)"
  by (simp_all add: cache_addAll_def Let_def comp_def split: option.splits)

lemma cache_addAll_rejected_caches:
  "fetched (map net (map (seed_request org) paths)) = None \<Longrightarrow>
   caches (snd (cache_addAll org net name paths s)) = caches s"
  by (simp add: cache_addAll_def Let_def)

lemma fetched_None_iff:
  "fetched ps = None \<longleftrightarrow>
     list_ex (\<lambda>p. case p of Inl e \<Rightarrow> True | Inr r \<Rightarrow> \<not> addable r) ps"
  by (induction ps rule: fetched.induct) (auto split: option.splits)

lemma fetched_Some_iff:
  "fetched ps = Some rs \<longleftrightarrow> ps = map Inr rs \<and> list_all addable rs"
proof (induction ps arbitrary: rs)
  case Nil
  show ?case by (cases rs) auto
next
  case (Cons p ps)
  show ?case
  proof (cases p)
    case (Inl e)
    then show ?thesis by (cases rs) simp_all
  next
    case (Inr r)
    show ?thesis
    proof (cases rs)
      case Nil
      with Inr show ?thesis by (simp split: option.splits)
    next
      case (Cons x xs)
      with Inr Cons.IH [of xs] show ?thesis
        by (cases "fetched ps") auto
    qed
  qed
qed

text \<open>Storing a list of pairs: a resource that is not among them keeps its answer.\<close>

lemma cache_match_store_one_other:
  "\<not> same_resource (request_url q) (request_url k) \<Longrightarrow>
   cache_match name q (update_cache name (put_entry k v) s) = cache_match name q s"
  unfolding cache_match_update_cache
  by (simp add: cache_lookup_put_entry_other cache_match_def split: option.splits)

lemma cache_match_store_other:
  "(\<And>k v. (k, v) \<in> set xs \<Longrightarrow> \<not> same_resource (request_url q) (request_url k)) \<Longrightarrow>
   cache_match name q (foldl (\<lambda>t (k, v). update_cache name (put_entry k v) t) s xs) =
     cache_match name q s"
proof (induction xs arbitrary: s)
  case Nil
  then show ?case by simp
next
  case (Cons x xs)
  obtain k v where x: "x = (k, v)" by (cases x)
  have "cache_match name q
          (foldl (\<lambda>t (k, v). update_cache name (put_entry k v) t)
             (update_cache name (put_entry k v) s) xs) =
        cache_match name q (update_cache name (put_entry k v) s)"
  proof (rule Cons.IH)
    fix k' v' assume "(k', v') \<in> set xs"
    then show "\<not> same_resource (request_url q) (request_url k')"
      using Cons.prems [of k' v'] by simp
  qed
  also have "\<dots> = cache_match name q s"
    using Cons.prems [of k v] x by (simp add: cache_match_store_one_other)
  finally show ?case by (simp add: x)
qed

text \<open>Storing pairs for different resources: each request is answered by its response.\<close>

lemma cache_match_store_all:
  assumes "has_cache name s"
    and "distinct (map (\<lambda>x. (url_scheme (request_url (fst x)), url_rest (request_url (fst x)))) xs)"
    and "(q, r) \<in> set xs"
    and "request_matches q (q, r)"
  shows "cache_match name q (foldl (\<lambda>t (k, v). update_cache name (put_entry k v) t) s xs) =
     Some r"
  using assms(1-3)
proof (induction xs arbitrary: s)
  case Nil
  then show ?case by simp
next
  case (Cons x xs)
  let ?s1 = "update_cache name (case x of (k, v) \<Rightarrow> put_entry k v) s"
  have s1: "has_cache name ?s1"
    using Cons.prems(1) by simp
  show ?case
  proof (cases "(q, r) \<in> set xs")
    case True
    with Cons.prems(2) s1 have
      "cache_match name q (foldl (\<lambda>t (k, v). update_cache name (put_entry k v) t) ?s1 xs) =
       Some r"
      by (intro Cons.IH) simp_all
    then show ?thesis by (simp add: case_prod_unfold)
  next
    case False
    with Cons.prems(3) have x: "x = (q, r)" by simp
    have other: "\<not> same_resource (request_url q) (request_url k)" if "(k, v) \<in> set xs" for k v
      using Cons.prems(2) that x by (force simp: same_resource_def)
    have "cache_match name q (foldl (\<lambda>t (k, v). update_cache name (put_entry k v) t) ?s1 xs) =
          cache_match name q ?s1"
      using other by (intro cache_match_store_other) blast
    also have "\<dots> = Some r"
      using Cons.prems(1) assms(4) x
      by (auto simp: cache_match_update_cache has_cache_map_of cache_lookup_put_entry)
    finally show ?thesis by (simp add: case_prod_unfold)
  qed
qed

lemma request_matches_seed:
  "no_vary_star r \<Longrightarrow> request_matches (seed_request org p) (seed_request org p, r)"
  by (simp add: request_matches_def seed_request_def same_resource_def no_vary_star_def)

text \<open>The install handler, with the promise chain unfolded.\<close>

lemma install_handler_unfold:
  "install_handler org net s =
     (let s1 = call (ConsoleLog ''[SW] Caching files...'' NoArg)
                 (call SkipWaiting
                    (snd (caches_open CACHE_NAME
                       (call (ConsoleLog ''[SW] Installing Service Worker...'' NoArg) s))));
          s2 = snd (cache_addAll org net CACHE_NAME FILES_TO_CACHE s1)
      in (Inr (),
          if fetched (map net (map (seed_request org) FILES_TO_CACHE)) = None
          then call (ConsoleLog ''[SW] Some files could not be cached'' NoArg) s2
          else s2))"
proof -
  let ?t = "call (ConsoleLog ''[SW] Caching files...'' NoArg)
              (call SkipWaiting
                 (snd (caches_open CACHE_NAME
                    (call (ConsoleLog ''[SW] Installing Service Worker...'' NoArg) s))))"
  show ?thesis
  proof (cases "cache_addAll org net CACHE_NAME FILES_TO_CACHE ?t")
    case (Pair r s2)
    have "r = (if fetched (map net (map (seed_request org) FILES_TO_CACHE)) = None
               then Inl TypeError else Inr ())"
      using cache_addAll_fst [of org net CACHE_NAME FILES_TO_CACHE ?t] Pair by simp
    with Pair show ?thesis
      by (simp add: install_handler_def waitUntil_def then_p_def catch_p_def settled_def
          caches_open_def skipWaiting_def console_log_def Let_def)
  qed
qed

lemma install_handler_fulfilled: "fst (install_handler org net s) = Inr ()"
  by (simp add: install_handler_unfold Let_def)

lemma install_handler_keys:
  "map fst (caches (snd (install_handler org net s))) =
     (if has_cache CACHE_NAME s then map fst (caches s) else map fst (caches s) @ [CACHE_NAME])"
  by (simp add: install_handler_unfold Let_def)

lemma install_handler_has_cache: "has_cache CACHE_NAME (snd (install_handler org net s))"
  unfolding has_cache_def install_handler_keys by (simp add: has_cache_def)

lemma install_handler_trace:
  "trace (snd (install_handler org net s)) =
     trace s @
     [ConsoleLog ''[SW] Installing Service Worker...'' NoArg,
      CachesOpen CACHE_NAME,
      SkipWaiting,
      ConsoleLog ''[SW] Caching files...'' NoArg,
      CacheAddAll CACHE_NAME FILES_TO_CACHE] @
     map (\<lambda>p. NetFetch (seed_request org p)) FILES_TO_CACHE @
     (if fetched (map net (map (seed_request org) FILES_TO_CACHE)) = None
      then [ConsoleLog ''[SW] Some files could not be cached'' NoArg] else [])"
  by (simp add: install_handler_unfold Let_def)

lemma install_handler_failed_caches:
  "fetched (map net (map (seed_request org) FILES_TO_CACHE)) = None \<Longrightarrow>
   caches (snd (install_handler org net s)) =
     (if has_cache CACHE_NAME s then caches s else caches s @ [(CACHE_NAME, [])])"
  by (simp add: install_handler_unfold Let_def cache_addAll_rejected_caches)

lemma install_handler_pending: "pending (snd (install_handler org net s)) = pending s"
  by (simp add: install_handler_unfold Let_def)

text \<open>When every seed is fetched and accepted, the bucket answers each seed request.\<close>

lemma install_handler_seeded:
  assumes f: "fetched (map net (map (seed_request org) FILES_TO_CACHE)) = Some rs"
  shows "map (\<lambda>p. cache_match CACHE_NAME (seed_request org p) (snd (install_handler org net s)))
           FILES_TO_CACHE = map Some rs"
proof -
  let ?reqs = "map (seed_request org) FILES_TO_CACHE"
  let ?t = "call (ConsoleLog ''[SW] Caching files...'' NoArg)
              (call SkipWaiting
                 (snd (caches_open CACHE_NAME
                    (call (ConsoleLog ''[SW] Installing Service Worker...'' NoArg) s))))"
  let ?t1 = "foldl (\<lambda>t r. call (NetFetch r) t)
               (call (CacheAddAll CACHE_NAME FILES_TO_CACHE) ?t) ?reqs"
  let ?store = "\<lambda>t (k, v). update_cache CACHE_NAME (put_entry k v) t"
  from f have rs: "map net ?reqs = map Inr rs" and acc: "list_all addable rs"
    by (simp_all add: fetched_Some_iff)
  from rs have len: "length rs = length FILES_TO_CACHE"
    by (metis length_map)
  have after: "snd (install_handler org net s) = foldl ?store ?t1 (zip ?reqs rs)"
    using f by (simp add: install_handler_unfold cache_addAll_def Let_def)
  have has: "has_cache CACHE_NAME ?t1"
    by (simp add: has_cache_def)
  have dist: "distinct (map (\<lambda>x. (url_scheme (request_url (fst x)), url_rest (request_url (fst x))))
                 (zip ?reqs rs))"
  proof -
    have "map (\<lambda>x. (url_scheme (request_url (fst x)), url_rest (request_url (fst x))))
            (zip ?reqs rs) =
          map (\<lambda>q. (url_scheme (request_url q), url_rest (request_url q)))
            (map fst (zip ?reqs rs))"
      by (simp add: comp_def)
    also have "map fst (zip ?reqs rs) = ?reqs"
      using len by simp
    also have "distinct (map (\<lambda>q. (url_scheme (request_url q), url_rest (request_url q))) ?reqs)"
      by (simp add: FILES_TO_CACHE_def seed_request_def absolute_def)
    finally show ?thesis .
  qed
  have one: "cache_match CACHE_NAME q (foldl ?store ?t1 (zip ?reqs rs)) = Some r"
    if "(q, r) \<in> set (zip ?reqs rs)" for q r
  proof -
    from that have "q \<in> set ?reqs" and "r \<in> set rs"
      by (auto dest: set_zip_leftD set_zip_rightD)
    then obtain p where "q = seed_request org p" and "no_vary_star r"
      using acc by (auto simp: list_all_iff addable_def)
    then have "request_matches q (q, r)"
      by (simp add: request_matches_seed)
    with has dist that show ?thesis
      by (intro cache_match_store_all)
  qed
  have "map (\<lambda>q. cache_match CACHE_NAME q (foldl ?store ?t1 (zip ?reqs rs))) ?reqs = map Some rs"
  proof (rule nth_equalityI)
    show "length (map (\<lambda>q. cache_match CACHE_NAME q (foldl ?store ?t1 (zip ?reqs rs))) ?reqs) =
          length (map Some rs)"
      using len by simp
  next
    fix i
    assume "i < length (map (\<lambda>q. cache_match CACHE_NAME q (foldl ?store ?t1 (zip ?reqs rs))) ?reqs)"
    then have i: "i < length ?reqs" "i < length rs"
      using len by simp_all
    then have "(?reqs ! i, rs ! i) \<in> set (zip ?reqs rs)"
      by (force simp: set_zip)
    from one [OF this] i
    show "map (\<lambda>q. cache_match CACHE_NAME q (foldl ?store ?t1 (zip ?reqs rs))) ?reqs ! i =
          map Some rs ! i"
      by simp
  qed
  moreover have "map (\<lambda>p. cache_match CACHE_NAME (seed_request org p)
                    (foldl ?store ?t1 (zip ?reqs rs))) FILES_TO_CACHE =
      map (\<lambda>q. cache_match CACHE_NAME q (foldl ?store ?t1 (zip ?reqs rs))) ?reqs"
    by (simp only: map_map comp_def)
  ultimately show ?thesis
    by (simp only: after)
qed

text \<open>
  C7. Whatever the network does, the promise the install handler gives to
  \<open>waitUntil\<close> is fulfilled, and the bucket \<open>neochat-v10-cache\<close> exists afterwards.
  The handler logs, calls \<open>caches.open\<close> and \<open>skipWaiting\<close>; then its callback logs
  and asks \<open>addAll\<close> for the three seed paths, each of which is fetched. When
  \<open>addAll\<close> is rejected (a seed fetch failed, or its answer was not acceptable) the
  handler logs one more line and the buckets are as \<open>caches.open\<close> left them; when it
  is not, the bucket answers each seed request with the response fetched for it.
\<close>

theorem install_survives_seed_failure:
  "fst (install_handler org net s) = Inr () \<and>
   has_cache CACHE_NAME (snd (install_handler org net s)) \<and>
   trace (snd (install_handler org net s)) =
     trace s @
     [ConsoleLog ''[SW] Installing Service Worker...'' NoArg,
      CachesOpen CACHE_NAME,
      SkipWaiting,
      ConsoleLog ''[SW] Caching files...'' NoArg,
      CacheAddAll CACHE_NAME [''/'', ''/index.html'', ''/service-worker.js''],
      NetFetch (seed_request org ''/''),
      NetFetch (seed_request org ''/index.html''),
      NetFetch (seed_request org ''/service-worker.js'')] @
     (if fetched (map net (map (seed_request org) FILES_TO_CACHE)) = None
      then [ConsoleLog ''[SW] Some files could not be cached'' NoArg] else []) \<and>
   (case fetched (map net (map (seed_request org) FILES_TO_CACHE)) of
      None \<Rightarrow>
        caches (snd (install_handler org net s)) =
          (if has_cache CACHE_NAME s then caches s else caches s @ [(CACHE_NAME, [])])
    | Some rs \<Rightarrow>
        map (\<lambda>p. cache_match CACHE_NAME (seed_request org p) (snd (install_handler org net s)))
          FILES_TO_CACHE = map Some rs)"
proof -
  have "map (\<lambda>p. NetFetch (seed_request org p)) FILES_TO_CACHE =
        [NetFetch (seed_request org ''/''), NetFetch (seed_request org ''/index.html''),
         NetFetch (seed_request org ''/service-worker.js'')]"
    and "CacheAddAll CACHE_NAME FILES_TO_CACHE =
         CacheAddAll CACHE_NAME [''/'', ''/index.html'', ''/service-worker.js'']"
    by (simp_all add: FILES_TO_CACHE_def)
  then have "trace (snd (install_handler org net s)) =
     trace s @
     [ConsoleLog ''[SW] Installing Service Worker...'' NoArg,
      CachesOpen CACHE_NAME,
      SkipWaiting,
      ConsoleLog ''[SW] Caching files...'' NoArg,
      CacheAddAll CACHE_NAME [''/'', ''/index.html'', ''/service-worker.js''],
      NetFetch (seed_request org ''/''),
      NetFetch (seed_request org ''/index.html''),
      NetFetch (seed_request org ''/service-worker.js'')] @
     (if fetched (map net (map (seed_request org) FILES_TO_CACHE)) = None
      then [ConsoleLog ''[SW] Some files could not be cached'' NoArg] else [])"
    using install_handler_trace [of org net s] by simp
  moreover have "case fetched (map net (map (seed_request org) FILES_TO_CACHE)) of
      None \<Rightarrow>
        caches (snd (install_handler org net s)) =
          (if has_cache CACHE_NAME s then caches s else caches s @ [(CACHE_NAME, [])])
    | Some rs \<Rightarrow>
        map (\<lambda>p. cache_match CACHE_NAME (seed_request org p) (snd (install_handler org net s)))
          FILES_TO_CACHE = map Some rs"
  proof (cases "fetched (map net (map (seed_request org) FILES_TO_CACHE))")
    case None
    from install_handler_failed_caches [OF None, of s] show ?thesis
      by (simp only: None option.case)
  next
    case (Some rs)
    from install_handler_seeded [OF Some, of s] show ?thesis
      by (simp only: Some option.case)
  qed
  ultimately show ?thesis
    using install_handler_fulfilled [of org net s] install_handler_has_cache [of org net s]
    by (intro conjI)
qed

theorem install_survives_seed_failure_witness:
  "fetched (map offline (map (seed_request neochat) FILES_TO_CACHE)) = None \<and>
   install_handler neochat offline fresh_state =
     (Inr (),
      \<lparr>caches = [(''neochat-v10-cache'', [])], pending = [],
       trace =
         [ConsoleLog ''[SW] Installing Service Worker...'' NoArg,
          CachesOpen ''neochat-v10-cache'',
          SkipWaiting,
          ConsoleLog ''[SW] Caching files...'' NoArg,
          CacheAddAll ''neochat-v10-cache'' [''/'', ''/index.html'', ''/service-worker.js''],
          NetFetch (seed_request neochat ''/''),
          NetFetch (seed_request neochat ''/index.html''),
          NetFetch (seed_request neochat ''/service-worker.js''),
          ConsoleLog ''[SW] Some files could not be cached'' NoArg]\<rparr>) \<and>
   fetched (map (online page_v10) (map (seed_request neochat) FILES_TO_CACHE)) =
     Some [page_v10, page_v10, page_v10] \<and>
   map (\<lambda>p. cache_match CACHE_NAME (seed_request neochat p)
              (snd (install_handler neochat (online page_v10) fresh_state)))
     [''/'', ''/index.html'', ''/service-worker.js''] =
     [Some page_v10, Some page_v10, Some page_v10]"
proof -
  have f: "fetched (map offline (map (seed_request neochat) FILES_TO_CACHE)) = None"
    by (simp add: offline_def FILES_TO_CACHE_def)
  have p: "pending (snd (install_handler neochat offline fresh_state)) = []"
    by (simp add: install_handler_pending fresh_state_def)
  have "snd (install_handler neochat offline fresh_state) =
      \<lparr>caches = caches (snd (install_handler neochat offline fresh_state)),
       pending = pending (snd (install_handler neochat offline fresh_state)),
       trace = trace (snd (install_handler neochat offline fresh_state))\<rparr>"
    by simp
  with f p install_survives_seed_failure [of neochat offline fresh_state]
  have failed: "install_handler neochat offline fresh_state =
     (Inr (),
      \<lparr>caches = [(''neochat-v10-cache'', [])], pending = [],
       trace =
         [ConsoleLog ''[SW] Installing Service Worker...'' NoArg,
          CachesOpen ''neochat-v10-cache'',
          SkipWaiting,
          ConsoleLog ''[SW] Caching files...'' NoArg,
          CacheAddAll ''neochat-v10-cache'' [''/'', ''/index.html'', ''/service-worker.js''],
          NetFetch (seed_request neochat ''/''),
          NetFetch (seed_request neochat ''/index.html''),
          NetFetch (seed_request neochat ''/service-worker.js''),
          ConsoleLog ''[SW] Some files could not be cached'' NoArg]\<rparr>)"
    by (simp add: prod_eq_iff fresh_state_def has_cache_def CACHE_NAME_def)
  have "addable page_v10"
    by (simp add: addable_def ok_def no_vary_star_def vary_fields_def header_values_def
        page_v10_def)
  then have g: "fetched (map (online page_v10) (map (seed_request neochat) FILES_TO_CACHE)) =
      Some [page_v10, page_v10, page_v10]"
    by (simp add: online_def FILES_TO_CACHE_def)
  with install_survives_seed_failure [of neochat "online page_v10" fresh_state]
  have "map (\<lambda>p. cache_match CACHE_NAME (seed_request neochat p)
              (snd (install_handler neochat (online page_v10) fresh_state)))
     FILES_TO_CACHE = map Some [page_v10, page_v10, page_v10]"
    by simp
  then have "map (\<lambda>p. cache_match CACHE_NAME (seed_request neochat p)
              (snd (install_handler neochat (online page_v10) fresh_state)))
     [''/'', ''/index.html'', ''/service-worker.js''] =
     [Some page_v10, Some page_v10, Some page_v10]"
    by (simp add: FILES_TO_CACHE_def)
  with f failed g show ?thesis by (intro conjI)
qed

subsection \<open>Activate\<close>

lemma delete_if_stale_caches:
  "caches (snd (delete_if_stale name s)) =
     filter (\<lambda>(n, c). n = CACHE_NAME \<or> n \<noteq> name) (caches s)"
  by (auto simp: delete_if_stale_def caches_delete_def console_log_def call_def
      intro: filter_cong)

lemma delete_if_stale_pending: "pending (snd (delete_if_stale name s)) = pending s"
  by (simp add: delete_if_stale_def caches_delete_def console_log_def call_def)

lemma delete_if_stale_fulfilled: "\<exists>v. fst (delete_if_stale name s) = Inr v"
  by (simp add: delete_if_stale_def caches_delete_def)

lemma promise_all_delete_caches:
  "caches (snd (promise_all (map delete_if_stale names) s)) =
     filter (\<lambda>(n, c). n = CACHE_NAME \<or> n \<notin> set names) (caches s)"
proof (induction names arbitrary: s)
  case Nil
  then show ?case by simp
next
  case (Cons a names)
  have "caches (snd (promise_all (map delete_if_stale (a # names)) s)) =
        caches (snd (promise_all (map delete_if_stale names) (snd (delete_if_stale a s))))"
    by (simp split: prod.splits)
  also have "\<dots> = filter (\<lambda>(n, c). n = CACHE_NAME \<or> n \<notin> set names)
                     (filter (\<lambda>(n, c). n = CACHE_NAME \<or> n \<noteq> a) (caches s))"
    by (simp only: Cons.IH delete_if_stale_caches)
  also have "\<dots> = filter (\<lambda>(n, c). n = CACHE_NAME \<or> n \<notin> set (a # names)) (caches s)"
    by (auto intro: filter_cong)
  finally show ?case .
qed

lemma promise_all_snd_Cons:
  "snd (promise_all (p # ps) s) = snd (promise_all ps (snd (p s)))"
  by (simp split: prod.splits)

lemma promise_all_delete_pending:
  "pending (snd (promise_all (map delete_if_stale names) s)) = pending s"
proof (induction names arbitrary: s)
  case Nil
  then show ?case by simp
next
  case (Cons a names)
  have "pending (snd (promise_all (map delete_if_stale (a # names)) s)) =
        pending (snd (promise_all (map delete_if_stale names) (snd (delete_if_stale a s))))"
    by (simp only: list.map promise_all_snd_Cons)
  then show ?case by (simp only: Cons.IH delete_if_stale_pending)
qed

lemma promise_all_delete_fulfilled:
  "\<exists>vs. fst (promise_all (map delete_if_stale names) s) = Inr vs"
proof (induction names arbitrary: s)
  case Nil
  then show ?case by simp
next
  case (Cons a names)
  obtain v where v: "fst (delete_if_stale a s) = Inr v"
    using delete_if_stale_fulfilled by blast
  obtain vs where vs: "fst (promise_all (map delete_if_stale names) (snd (delete_if_stale a s))) = Inr vs"
    using Cons.IH by blast
  show ?case using v vs by (auto split: prod.splits)
qed

lemma activate_handler_unfold:
  "snd (activate_handler s) =
     snd (promise_all (map delete_if_stale (map fst (caches s)))
            (call ClientsClaim (call CachesKeys
               (call (ConsoleLog ''[SW] Service Worker activated'' NoArg) s))))"
  "fst (activate_handler s) =
     (case fst (promise_all (map delete_if_stale (map fst (caches s)))
                  (call ClientsClaim (call CachesKeys
                     (call (ConsoleLog ''[SW] Service Worker activated'' NoArg) s))))
      of Inl e \<Rightarrow> Inl e | Inr vs \<Rightarrow> Inr ())"
  by (simp_all add: activate_handler_def waitUntil_def then_p_def settled_def caches_keys_def
      clients_claim_def console_log_def Let_def split: prod.splits sum.splits)

lemma activate_handler_caches:
  "caches (snd (activate_handler s)) = filter (\<lambda>(n, c). n = CACHE_NAME) (caches s)"
proof -
  have "caches (snd (activate_handler s)) =
        filter (\<lambda>(n, c). n = CACHE_NAME \<or> n \<notin> set (map fst (caches s))) (caches s)"
    by (simp only: activate_handler_unfold promise_all_delete_caches call_simps)
  also have "\<dots> = filter (\<lambda>(n, c). n = CACHE_NAME) (caches s)"
    by (rule filter_cong) force+
  finally show ?thesis .
qed

lemma activate_handler_fulfilled: "fst (activate_handler s) = Inr ()"
proof -
  obtain vs where "fst (promise_all (map delete_if_stale (map fst (caches s)))
                 (call ClientsClaim (call CachesKeys
                    (call (ConsoleLog ''[SW] Service Worker activated'' NoArg) s)))) = Inr vs"
    using promise_all_delete_fulfilled by blast
  then show ?thesis
    by (simp only: activate_handler_unfold sum.case)
qed

lemma activate_handler_pending: "pending (snd (activate_handler s)) = pending s"
  by (simp only: activate_handler_unfold promise_all_delete_pending call_simps)

lemma keys_filter_single:
  "distinct (map fst cs) \<Longrightarrow> name \<in> set (map fst cs) \<Longrightarrow>
   map fst (filter (\<lambda>(n, c). n = name) cs) = [name]"
proof (induction cs)
  case Nil
  then show ?case by simp
next
  case (Cons a cs)
  obtain n c where a: "a = (n, c)" by (cases a)
  show ?case
  proof (cases "n = name")
    case True
    with Cons.prems a have "name \<notin> fst ` set cs" by simp
    then have "filter (\<lambda>(n, c). n = name) cs = []"
      by (force simp: filter_empty_conv)
    with True a show ?thesis by simp
  next
    case False
    with Cons a show ?thesis by auto
  qed
qed

lemma map_of_filter_name:
  "map_of (filter (\<lambda>(n, c). n = name) cs) name = map_of cs name"
  by (induction cs) auto

text \<open>
  C3. On a well-formed storage that holds the bucket \<open>neochat-v10-cache\<close>, the promise
  the activate handler gives to \<open>waitUntil\<close> is fulfilled, and afterwards the buckets
  enumerate as that one name: no bucket of another name is left, and the current bucket
  holds what it held.
\<close>

theorem activate_keeps_only_current:
  "wf_storage s \<and> has_cache CACHE_NAME s \<longrightarrow>
     fst (activate_handler s) = Inr () \<and>
     map fst (caches (snd (activate_handler s))) = [CACHE_NAME] \<and>
     (\<forall>name. name \<noteq> CACHE_NAME \<longrightarrow> \<not> has_cache name (snd (activate_handler s))) \<and>
     (\<forall>req. cache_match CACHE_NAME req (snd (activate_handler s)) =
            cache_match CACHE_NAME req s)"
proof (intro impI, elim conjE)
  assume wf: "wf_storage s" and cur: "has_cache CACHE_NAME s"
  have keys: "map fst (caches (snd (activate_handler s))) = [CACHE_NAME]"
    unfolding activate_handler_caches
    using wf cur by (intro keys_filter_single) (simp_all add: wf_storage_def has_cache_def)
  then have "\<forall>name. name \<noteq> CACHE_NAME \<longrightarrow> \<not> has_cache name (snd (activate_handler s))"
    by (simp add: has_cache_def)
  moreover have "\<forall>req. cache_match CACHE_NAME req (snd (activate_handler s)) =
      cache_match CACHE_NAME req s"
    by (simp add: cache_match_def activate_handler_caches map_of_filter_name)
  ultimately show "fst (activate_handler s) = Inr () \<and>
     map fst (caches (snd (activate_handler s))) = [CACHE_NAME] \<and>
     (\<forall>name. name \<noteq> CACHE_NAME \<longrightarrow> \<not> has_cache name (snd (activate_handler s))) \<and>
     (\<forall>req. cache_match CACHE_NAME req (snd (activate_handler s)) =
            cache_match CACHE_NAME req s)"
    using keys activate_handler_fulfilled by blast
qed

theorem activate_keeps_only_current_witness:
  "wf_storage two_versions \<and> has_cache CACHE_NAME two_versions \<and>
   map fst (caches two_versions) = [''neochat-v9-cache'', ''neochat-v10-cache''] \<and>
   map fst (caches (snd (activate_handler two_versions))) = [''neochat-v10-cache''] \<and>
   cache_match CACHE_NAME get_page (snd (activate_handler two_versions)) = Some page_v10"
  using activate_keeps_only_current [of two_versions]
  by (simp add: two_versions_def wf_storage_def has_cache_def CACHE_NAME_def cache_match_def
      cache_lookup_def request_matches_def same_resource_def get_page_def page_v10_def
      vary_fields_def header_values_def)

text \<open>Without the current bucket, activation leaves no bucket at all.\<close>

lemma activate_without_current:
  "\<not> has_cache CACHE_NAME s \<Longrightarrow> caches (snd (activate_handler s)) = []"
  unfolding activate_handler_caches has_cache_def
  by (force simp: filter_empty_conv)

subsection \<open>Messages\<close>

lemma message_handler_eq:
  "message_handler data s =
     Inr (if data \<noteq> JNull \<and> get_prop data ''type'' = Inr (JStr ''SKIP_WAITING'')
          then call SkipWaiting (call (ConsoleLog ''[SW] Message received:'' (ArgData data)) s)
          else call (ConsoleLog ''[SW] Message received:'' (ArgData data)) s)"
  by (cases data) (simp_all add: message_handler_def console_log_def skipWaiting_def Let_def)

text \<open>
  C9. The message handler never throws. It calls \<open>skipWaiting\<close> exactly when the payload
  is not null and reading its \<open>type\<close> gives the string SKIP_WAITING; for every other
  payload its only call on the host is the diagnostic console line, and for every payload
  the buckets and the pending work are as they were.
\<close>

theorem message_skip_waiting_only:
  "(\<exists>s1. message_handler data s = Inr s1 \<and>
         caches s1 = caches s \<and> pending s1 = pending s \<and>
         trace s1 =
           trace s @ ConsoleLog ''[SW] Message received:'' (ArgData data) #
             (if data \<noteq> JNull \<and> get_prop data ''type'' = Inr (JStr ''SKIP_WAITING'')
              then [SkipWaiting] else []))"
  by (simp add: message_handler_eq)

theorem message_skip_waiting_only_witness:
  "message_handler (JObj [(''type'', JStr ''SKIP_WAITING'')]) fresh_state =
     Inr (fresh_state\<lparr>trace :=
            [ConsoleLog ''[SW] Message received:''
               (ArgData (JObj [(''type'', JStr ''SKIP_WAITING'')])), SkipWaiting]\<rparr>) \<and>
   message_handler JNull fresh_state =
     Inr (fresh_state\<lparr>trace := [ConsoleLog ''[SW] Message received:'' (ArgData JNull)]\<rparr>) \<and>
   message_handler (JObj [(''kind'', JStr ''SKIP_WAITING'')]) fresh_state =
     Inr (fresh_state\<lparr>trace :=
            [ConsoleLog ''[SW] Message received:''
               (ArgData (JObj [(''kind'', JStr ''SKIP_WAITING'')]))]\<rparr>)"
  using message_skip_waiting_only [of "JObj [(''type'', JStr ''SKIP_WAITING'')]" fresh_state]
    message_skip_waiting_only [of JNull fresh_state]
    message_skip_waiting_only [of "JObj [(''kind'', JStr ''SKIP_WAITING'')]" fresh_state]
  by (auto simp: fresh_state_def)

subsection \<open>Notifications\<close>

lemma push_handler_eq:
  "push_handler data s =
     (Inr (),
      call (ShowNotification ''NeoChat''
              \<lparr>opt_body = (case data of Some text \<Rightarrow> text | None \<Rightarrow> DEFAULT_BODY),
               icon = ''/favicon.ico'', badge = ''/favicon.ico'',
               tag = ''neochat-notification'', requireInteraction = False\<rparr>)
        (call (ConsoleLog ''[SW] Push notification received:'' (ArgEvent ''push'')) s))"
  by (simp add: push_handler_def waitUntil_def showNotification_def console_log_def)

text \<open>
  C10. A push event makes exactly one call on the notification surface, with the title
  NeoChat; the body of the notification is the payload's text when there is a payload and
  the default message when there is none, and the tag is \<open>neochat-notification\<close> either
  way.
\<close>

theorem push_notification_body_and_tag:
  "\<exists>options.
     fst (push_handler data s) = Inr () \<and>
     trace (snd (push_handler data s)) =
       trace s @ [ConsoleLog ''[SW] Push notification received:'' (ArgEvent ''push''),
                  ShowNotification ''NeoChat'' options] \<and>
     opt_body options = (case data of Some text \<Rightarrow> text | None \<Rightarrow> DEFAULT_BODY) \<and>
     tag options = ''neochat-notification''"
  by (simp add: push_handler_eq)

theorem push_notification_body_and_tag_witness:
  "trace (snd (push_handler (Some ''Hello'') fresh_state)) =
     [ConsoleLog ''[SW] Push notification received:'' (ArgEvent ''push''),
      ShowNotification ''NeoChat''
        \<lparr>opt_body = ''Hello'', icon = ''/favicon.ico'', badge = ''/favicon.ico'',
         tag = ''neochat-notification'', requireInteraction = False\<rparr>]"
  using push_notification_body_and_tag [of "Some ''Hello''" fresh_state]
  by (simp add: fresh_state_def push_handler_eq)

lemma notificationclick_handler_eq:
  "notificationclick_handler openWindow ws s =
     (Inr (),
      (let s3 = call ClientsMatchAll (call NotificationClose
                  (call (ConsoleLog ''[SW] Notification clicked:''
                           (ArgEvent ''notificationclick'')) s))
       in case first_root ws 0 of
            Some i \<Rightarrow> call (ClientFocus i) s3
          | None \<Rightarrow> if openWindow then call (OpenWindow ''/'') s3 else s3))"
  by (simp add: notificationclick_handler_def waitUntil_def then_p_def clients_matchAll_def
      client_focus_def clients_openWindow_def resolve_def console_log_def notification_close_def
      split: option.splits)

text \<open>A serialized URL holds a colon after its scheme: it is never the string \<open>/\<close>.\<close>

lemma href_not_slash: "href u \<noteq> ''/''"
  by (cases "url_scheme u") (simp_all add: href_def)

lemma first_root_never: "first_root ws i = None"
  by (induction ws arbitrary: i) (simp_all add: url_def href_not_slash)

text \<open>
  So the loop of the click handler focuses no page, whatever pages are open: the handler
  closes the notification, asks for the pages, and opens a page at \<open>/\<close> if the host
  offers \<open>clients.openWindow\<close>, and does nothing more if it does not.
\<close>

lemma notificationclick_never_focuses:
  "notificationclick_handler openWindow ws s =
     (Inr (),
      s\<lparr>trace :=
          trace s @
          [ConsoleLog ''[SW] Notification clicked:'' (ArgEvent ''notificationclick''),
           NotificationClose, ClientsMatchAll] @
          (if openWindow then [OpenWindow ''/''] else [])\<rparr>)"
  by (simp add: notificationclick_handler_eq first_root_never call_def)

text \<open>
  C8 at an open root page. The page of the application's root URL is open and can be
  focused, and the host offers \<open>clients.openWindow\<close>: the click closes the notification
  and opens a second page at \<open>/\<close>; the open page is not focused, because its \<open>url\<close>
  is the absolute URL and the handler compares it with \<open>/\<close>.
\<close>

theorem notificationclick_opens_second_root_page:
  "url root_page = ''https://neochat.example/'' \<and> has_focus root_page \<and>
   notificationclick_handler True [root_page] fresh_state =
     (Inr (),
      \<lparr>caches = [], pending = [],
       trace =
         [ConsoleLog ''[SW] Notification clicked:'' (ArgEvent ''notificationclick''),
          NotificationClose, ClientsMatchAll, OpenWindow ''/'']\<rparr>)"
  by (simp add: notificationclick_handler_eq first_root_never call_def fresh_state_def
      root_page_def url_def href_def absolute_def neochat_def)

subsection \<open>Work the events wait for, and work they do not\<close>

lemma promise_chains_leave_no_pending:
  "pending (snd (install_handler org net s)) = pending s"
  "pending (snd (activate_handler s)) = pending s"
  "pending (snd (push_handler data s)) = pending s"
  "pending (snd (notificationclick_handler openWindow ws s)) = pending s"
proof -
  show "pending (snd (install_handler org net s)) = pending s"
    by (rule install_handler_pending)
  show "pending (snd (activate_handler s)) = pending s"
    by (rule activate_handler_pending)
  show "pending (snd (push_handler data s)) = pending s"
    by (simp add: push_handler_eq)
  show "pending (snd (notificationclick_handler openWindow ws s)) = pending s"
    by (simp add: notificationclick_never_focuses)
qed

lemma storable_get_page: "storable get_page page_v10"
  by (simp add: storable_def get_page_def page_v10_def http_scheme_def absolute_def
      neochat_def no_vary_star_def vary_fields_def header_values_def)

text \<open>
  C6 at the fetch handler. A GET request answered with status 200: the handler has
  answered, and the write into the bucket is work the event was not told of. A worker
  stopped at that point has stored nothing, and nothing is left to store it later.
\<close>

theorem fetch_cache_write_unregistered:
  "fst (fetch_handler (online page_v10) get_page fresh_state) = RespondWith (Inr page_v10) \<and>
   pending (snd (fetch_handler (online page_v10) get_page fresh_state)) =
     [CachePutTask CACHE_NAME get_page page_v10] \<and>
   cache_match CACHE_NAME get_page
     (settle (terminate (snd (fetch_handler (online page_v10) get_page fresh_state)))) = None \<and>
   cache_match CACHE_NAME get_page
     (settle (snd (fetch_handler (online page_v10) get_page fresh_state))) = Some page_v10"
proof -
  let ?opened = "snd (caches_open CACHE_NAME (call (NetFetch get_page) fresh_state))"
  have h: "fetch_handler (online page_v10) get_page fresh_state =
      (RespondWith (Inr page_v10), detach (CachePutTask CACHE_NAME get_page page_v10) ?opened)"
    using fetch_handler_resolved [of get_page "online page_v10" page_v10 fresh_state]
    by (simp add: get_page_def online_def page_v10_def)
  have stored: "cache_match CACHE_NAME get_page
      (settle (detach (CachePutTask CACHE_NAME get_page page_v10) ?opened)) = Some page_v10"
    unfolding settle_detach run_task.simps
    by (intro cache_match_cache_put storable_get_page) (simp add: has_cache_caches_open)
  have "fst (fetch_handler (online page_v10) get_page fresh_state) = RespondWith (Inr page_v10)"
    by (simp add: h)
  moreover have "pending (snd (fetch_handler (online page_v10) get_page fresh_state)) =
      [CachePutTask CACHE_NAME get_page page_v10]"
    unfolding h by (simp add: detach_def fresh_state_def)
  moreover have "cache_match CACHE_NAME get_page
      (settle (terminate (snd (fetch_handler (online page_v10) get_page fresh_state)))) = None"
    unfolding h
    by (simp add: detach_def terminate_def settle_def cache_match_def fresh_state_def
        has_cache_def cache_lookup_def)
  moreover have "cache_match CACHE_NAME get_page
      (settle (snd (fetch_handler (online page_v10) get_page fresh_state))) = Some page_v10"
    using stored by (simp only: h snd_conv)
  ultimately show ?thesis by (intro conjI)
qed

subsection \<open>Write, then read\<close>

text \<open>
  What \<open>caches.match\<close> gives when the current bucket answers the request: the answer of
  an older bucket if one has it, and the answer of the current bucket otherwise.
\<close>

lemma match_all_current:
  "map_of cs name = Some c \<Longrightarrow> cache_lookup c req = Some resp \<Longrightarrow>
   match_all cs req =
     (case match_all (takeWhile (\<lambda>(n, c). n \<noteq> name) cs) req of
        Some old \<Rightarrow> Some old
      | None \<Rightarrow> Some resp)"
proof (induction cs)
  case Nil
  then show ?case by simp
next
  case (Cons a cs)
  obtain n b where a: "a = (n, b)" by (cases a)
  show ?case
  proof (cases "n = name")
    case True
    with a Cons.prems show ?thesis by simp
  next
    case False
    with a Cons.prems have "map_of cs name = Some c" by simp
    from Cons.IH [OF this Cons.prems(2)] a False show ?thesis
      by (simp split: option.splits)
  qed
qed

lemma match_all_cache_match:
  "cache_match CACHE_NAME req s = Some resp \<Longrightarrow>
   match_all (caches s) req =
     (case match_all (older_buckets s) req of Some old \<Rightarrow> Some old | None \<Rightarrow> Some resp)"
  unfolding older_buckets_def cache_match_def
  by (cases "map_of (caches s) CACHE_NAME") (simp_all add: match_all_current)

lemma older_buckets_single: "map fst (caches s) = [CACHE_NAME] \<Longrightarrow> older_buckets s = []"
  by (cases "caches s") (auto simp: older_buckets_def)

lemma keys_after_fetch:
  "request_method req = ''GET'' \<Longrightarrow> net req = Inr resp \<Longrightarrow> status resp = 200 \<Longrightarrow>
   map fst (caches (settle (snd (fetch_handler net req s)))) =
     (if has_cache CACHE_NAME s then map fst (caches s) else map fst (caches s) @ [CACHE_NAME])"
  by (simp add: settle_after_fetch settle_keys)

lemma storable_page_v11: "storable get_page page_v11"
  by (simp add: storable_def get_page_def page_v11_def http_scheme_def absolute_def
      neochat_def no_vary_star_def vary_fields_def header_values_def)

text \<open>
  C4, as the code does it. After a GET request answered with status 200 that
  \<open>cache.put\<close> accepts, once the pending work has run, the bucket
  \<open>neochat-v10-cache\<close> answers the request with the network's response, body and
  all. The worker's own lookup, \<open>caches.match\<close>, searches every bucket in creation
  order: it gives that response unless a bucket created before the current one answers the
  request, and then it gives that older answer. Where the current bucket is the only one,
  as activation leaves it, it gives the response.
\<close>

theorem fetch_write_then_read:
  "request_method req = ''GET'' \<and> net req = Inr resp \<and> status resp = 200 \<and>
   storable req resp \<longrightarrow>
     cache_match CACHE_NAME req (settle (snd (fetch_handler net req s))) = Some resp \<and>
     match_all (caches (settle (snd (fetch_handler net req s)))) req =
       (case match_all (older_buckets (settle (snd (fetch_handler net req s)))) req of
          Some old \<Rightarrow> Some old
        | None \<Rightarrow> Some resp) \<and>
     (map fst (caches s) = [CACHE_NAME] \<longrightarrow>
        match_all (caches (settle (snd (fetch_handler net req s)))) req = Some resp)"
proof (intro impI, elim conjE)
  assume get: "request_method req = ''GET''" and net: "net req = Inr resp"
    and ok: "status resp = 200" and sto: "storable req resp"
  let ?s2 = "settle (snd (fetch_handler net req s))"
  have settled: "?s2 =
      snd (cache_put CACHE_NAME req resp
             (settle (snd (caches_open CACHE_NAME (call (NetFetch req) s)))))"
    using get net ok by (rule settle_after_fetch)
  have c: "cache_match CACHE_NAME req ?s2 = Some resp"
    unfolding settled using sto
    by (intro cache_match_cache_put) (simp_all add: has_cache_caches_open)
  then have m: "match_all (caches ?s2) req =
      (case match_all (older_buckets ?s2) req of Some old \<Rightarrow> Some old | None \<Rightarrow> Some resp)"
    by (rule match_all_cache_match)
  have "match_all (caches ?s2) req = Some resp" if only: "map fst (caches s) = [CACHE_NAME]"
  proof -
    have "has_cache CACHE_NAME s"
      using only by (simp add: has_cache_def)
    then have "map fst (caches ?s2) = [CACHE_NAME]"
      using keys_after_fetch [of req net resp s] get net ok only by simp
    then have "older_buckets ?s2 = []"
      by (rule older_buckets_single)
    with m show ?thesis by simp
  qed
  with c m show "cache_match CACHE_NAME req ?s2 = Some resp \<and>
     match_all (caches ?s2) req =
       (case match_all (older_buckets ?s2) req of Some old \<Rightarrow> Some old | None \<Rightarrow> Some resp) \<and>
     (map fst (caches s) = [CACHE_NAME] \<longrightarrow> match_all (caches ?s2) req = Some resp)"
    by blast
qed

theorem fetch_write_then_read_witness:
  "request_method get_page = ''GET'' \<and> status page_v11 = 200 \<and> storable get_page page_v11 \<and>
   map fst (caches (snd (activate_handler two_versions))) = [CACHE_NAME] \<and>
   match_all
     (caches (settle (snd (fetch_handler (online page_v11) get_page
        (snd (activate_handler two_versions)))))) get_page = Some page_v11 \<and>
   body page_v11 = ''<html>v11</html>''"
proof -
  have keys: "map fst (caches (snd (activate_handler two_versions))) = [CACHE_NAME]"
    by (simp add: activate_handler_caches two_versions_def CACHE_NAME_def)
  have g: "request_method get_page = ''GET''" "online page_v11 get_page = Inr page_v11"
    "status page_v11 = 200" "body page_v11 = ''<html>v11</html>''"
    by (simp_all add: get_page_def online_def page_v11_def)
  have hyp: "request_method get_page = ''GET'' \<and> online page_v11 get_page = Inr page_v11 \<and>
      status page_v11 = 200 \<and> storable get_page page_v11"
    using g storable_page_v11 by (intro conjI)
  note r = mp [OF fetch_write_then_read [of get_page "online page_v11" page_v11
      "snd (activate_handler two_versions)"] hyp]
  from r have "map fst (caches (snd (activate_handler two_versions))) = [CACHE_NAME] \<longrightarrow>
     match_all
       (caches (settle (snd (fetch_handler (online page_v11) get_page
          (snd (activate_handler two_versions)))))) get_page = Some page_v11"
    by (elim conjE)
  from this keys have "match_all
     (caches (settle (snd (fetch_handler (online page_v11) get_page
        (snd (activate_handler two_versions)))))) get_page = Some page_v11"
    by (rule mp)
  with keys g storable_page_v11 show ?thesis by (intro conjI)
qed

text \<open>
  C4 as the specification words it fails in two places. After a rollover: version 11 has
  deleted the bucket of version 10, a worker of version 10 gets status 200 for a request
  in flight and stores the response, and the lookup that follows gives the entry of
  version 11. And where \<open>cache.put\<close> refuses the response: the write has settled, and
  the lookup that follows finds nothing.
\<close>

theorem fetch_write_then_read_counterexample:
  "request_method get_page = ''GET'' \<and> status page_v10 = 200 \<and>
   body page_v10 = ''<html>v10</html>'' \<and>
   map_option body
     (match_all
        (caches (settle (snd (fetch_handler (online page_v10) get_page rolled_over))))
        get_page) = Some ''<html>v11</html>'' \<and>
   status page_vary_star = 200 \<and>
   match_all
     (caches (settle (snd (fetch_handler (online page_vary_star) get_page fresh_state))))
     get_page = None"
proof -
  have g: "request_method get_page = ''GET''"
    by (simp add: get_page_def)
  have st: "status page_v10 = 200" "body page_v10 = ''<html>v10</html>''"
    "status page_vary_star = 200"
    by (simp_all add: page_v10_def page_vary_star_def)
  let ?s2 = "settle (snd (fetch_handler (online page_v10) get_page rolled_over))"
  have "cache_match CACHE_NAME get_page ?s2 = Some page_v10"
    using put_after_fetch_stored [of get_page "online page_v10" page_v10 rolled_over]
      g st(1) storable_get_page
    by (simp add: online_def)
  then have "match_all (caches ?s2) get_page =
      (case match_all (older_buckets ?s2) get_page of
         Some old \<Rightarrow> Some old | None \<Rightarrow> Some page_v10)"
    by (rule match_all_cache_match)
  moreover have "older_buckets ?s2 = [(''neochat-v11-cache'', [(get_page, page_v11)])]"
  proof -
    have "caches ?s2 =
        map (\<lambda>(n, c). if n = CACHE_NAME then (n, put_entry get_page page_v10 c) else (n, c))
          [(''neochat-v11-cache'', [(get_page, page_v11)]), (CACHE_NAME, [])]"
      using settle_after_fetch [of get_page "online page_v10" page_v10 rolled_over]
        g st(1) storable_get_page
      by (simp add: online_def cache_put_def update_cache_def settle_def rolled_over_def
          has_cache_def CACHE_NAME_def)
    then show ?thesis
      by (simp add: older_buckets_def CACHE_NAME_def)
  qed
  ultimately have a: "map_option body (match_all (caches ?s2) get_page) =
      Some ''<html>v11</html>''"
    by (simp add: cache_lookup_def request_matches_def same_resource_def get_page_def
        page_v11_def vary_fields_def header_values_def)
  have "caches (settle (snd (fetch_handler (online page_vary_star) get_page fresh_state))) =
      [(''neochat-v10-cache'', [])]"
    using refused_put_leaves_bucket_empty by simp
  then have b: "match_all
     (caches (settle (snd (fetch_handler (online page_vary_star) get_page fresh_state))))
     get_page = None"
    by (simp add: cache_lookup_def)
  from g st a b show ?thesis by (intro conjI)
qed

subsection \<open>The storage stays well-formed\<close>

lemma fetch_handler_keys:
  "map fst (caches (snd (fetch_handler net req s))) = map fst (caches s) \<or>
   (\<not> has_cache CACHE_NAME s \<and>
    map fst (caches (snd (fetch_handler net req s))) = map fst (caches s) @ [CACHE_NAME])"
proof (cases "request_method req = ''GET''")
  case False
  then show ?thesis by (simp add: fetch_handler_def)
next
  case True
  show ?thesis
  proof (cases "net req")
    case (Inl e)
    with True show ?thesis by (simp add: fetch_handler_rejected)
  next
    case (Inr resp)
    with True show ?thesis by (simp add: fetch_handler_resolved detach_def)
  qed
qed

lemma wf_storage_preserved:
  assumes "wf_storage s"
  shows "wf_storage (snd (install_handler org net s))"
    and "wf_storage (snd (activate_handler s))"
    and "wf_storage (snd (fetch_handler net req s))"
    and "wf_storage (settle s)"
    and "wf_storage (terminate s)"
    and "wf_storage (snd (push_handler data s))"
    and "wf_storage (snd (notificationclick_handler openWindow ws s))"
proof -
  show "wf_storage (snd (install_handler org net s))"
    using assms unfolding wf_storage_def install_handler_keys by (simp add: has_cache_def)
  show "wf_storage (snd (activate_handler s))"
    using assms unfolding wf_storage_def activate_handler_caches by (rule distinct_map_filter)
  show "wf_storage (snd (fetch_handler net req s))"
    using assms fetch_handler_keys [of net req s]
    by (auto simp: wf_storage_def has_cache_def)
  show "wf_storage (settle s)"
    using assms by (simp add: wf_storage_def settle_keys)
  show "wf_storage (terminate s)"
    using assms by (simp add: wf_storage_def terminate_def)
  show "wf_storage (snd (push_handler data s))"
    using assms by (simp add: wf_storage_def push_handler_eq)
  show "wf_storage (snd (notificationclick_handler openWindow ws s))"
    using assms by (simp add: wf_storage_def notificationclick_never_focuses)
qed

lemma wf_storage_fresh: "wf_storage fresh_state"
  by (simp add: wf_storage_def fresh_state_def)

end
